theory Spec2Isabelle
  imports Main "HOL-Library.AList"
begin

section \<open>Errors and outcomes\<close>

text \<open>
  The library signals failure in three ways: it throws \<^verbatim>\<open>program_params::Exception\<close>
  with a message, it aborts on a failed \<^verbatim>\<open>assert\<close>, and the standard conversions
  (\<^verbatim>\<open>std::stoi\<close>, \<^verbatim>\<open>std::stoul\<close>, ...) throw their own exceptions, which the
  library lets through.
\<close>

datatype error =
    Exception string
  | AssertionFailed
  | ConversionFailed

text \<open>
  The main loop of \<^verbatim>\<open>Params::parse\<close> has no bound in the source, so the model runs
  it for a number of iterations: \<open>Running s\<close> is the state of a loop that is still
  running after that many iterations, \<open>Thrown e s\<close> the state at the point where
  \<open>e\<close> was raised, \<open>Returned s\<close> the state at a normal return.
\<close>

datatype 's outcome = Running 's | Thrown error 's | Returned 's

section \<open>Descriptors: \<^verbatim>\<open>ParamBase\<close> and \<^verbatim>\<open>Param<T>\<close>\<close>

definition is_option :: "string \<Rightarrow> bool" where
  "is_option arg \<longleftrightarrow> length arg > 0 \<and> arg ! 0 = CHR ''-''"

text \<open>
  The instantiations of \<^verbatim>\<open>Param<T>\<close> that have a \<^verbatim>\<open>parse\<close>: bool, std::string, int,
  unsigned int, long, unsigned long, float, double. A slot holds a boolean, a string,
  or a number of a type \<open>'n\<close> that the standard conversions produce.
\<close>

datatype ptype = TBool | TString | TInt | TUInt | TLong | TULong | TFloat | TDouble

datatype 'n val = VBool bool | VStr string | VNum 'n

record 'n ParamBase =
  m_names :: "string list"
  m_option :: bool
  m_required :: bool
  m_found :: bool
  param_type :: ptype
  m_target :: "'n val"

text \<open>
  A data member \<^verbatim>\<open>x_\<close> of the source is the field \<open>m_x\<close>; \<open>param_type\<close> is the
  \<^verbatim>\<open>T\<close> of \<^verbatim>\<open>Param<T>\<close>, which selects the specialisation of \<^verbatim>\<open>parse\<close>.

  The constructor initialises \<^verbatim>\<open>names_\<close> and \<^verbatim>\<open>required_\<close> only. \<^verbatim>\<open>option_\<close> is
  assigned once per name in the loop, so it ends as \<^verbatim>\<open>is_option\<close> of the last name and
  keeps its indeterminate initial value when there is no name; \<^verbatim>\<open>found_\<close> is assigned
  nowhere in the constructor. The two indeterminate values are arguments of the model.
  The loop's \<^verbatim>\<open>assert(first || option == option_)\<close> cannot fail: \<^verbatim>\<open>first\<close> stays true.
\<close>

definition Param_new ::
  "'n val \<Rightarrow> ptype \<Rightarrow> string list \<Rightarrow> bool \<Rightarrow> bool \<Rightarrow> bool \<Rightarrow> 'n ParamBase" where
  "Param_new target T names required option_indet found_indet =
     \<lparr>m_names = names,
      m_option = foldl (\<lambda>_ name. is_option name) option_indet names,
      m_required = required,
      m_found = found_indet,
      param_type = T,
      m_target = target\<rparr>"

text \<open>
  \<^verbatim>\<open>ParamBase::value(start, end, inc)\<close>: the token array is \<open>argv\<close>, \<open>start\<close> an index
  into it and \<open>end\<close> its length. The result is the value text and \<^verbatim>\<open>inc\<close>.
\<close>

definition ParamBase_value :: "'n ParamBase \<Rightarrow> string list \<Rightarrow> nat \<Rightarrow> error + (string \<times> int)" where
  "ParamBase_value p argv start =
     (if \<not> start < length argv then Inl AssertionFailed
      else let opt = argv ! start in
        if \<not> m_option p then Inr (opt, 1)
        else if CHR ''='' \<in> set opt then Inr (tl (dropWhile (\<lambda>c. c \<noteq> CHR ''='') opt), 1)
        else if length opt > 2 then Inr (drop 2 opt, 1)
        else if \<not> start + 1 < length argv then Inl AssertionFailed
        else Inr (argv ! (start + 1), 2))"

definition ParamBase_check :: "'n ParamBase \<Rightarrow> error + unit" where
  "ParamBase_check p =
     (if m_required p \<and> \<not> m_found p then Inl (Exception ''Required parameter not found.'')
      else Inr ())"

text \<open>
  \<^verbatim>\<open>Param<T>::parse(start, end)\<close>, one specialisation per type. \<open>conv T\<close> stands for the
  standard conversion the specialisation for \<open>T\<close> calls; \<open>None\<close> is its exception. The
  result is the descriptor after the call and the returned \<^verbatim>\<open>inc\<close>.
\<close>

definition Param_parse ::
  "(ptype \<Rightarrow> string \<Rightarrow> 'n option) \<Rightarrow> 'n ParamBase \<Rightarrow> string list \<Rightarrow> nat
     \<Rightarrow> error + ('n ParamBase \<times> int)" where
  "Param_parse conv p argv start =
     (if \<not> start < length argv then Inl AssertionFailed
      else if param_type p = TBool then Inr (p\<lparr>m_target := VBool True, m_found := True\<rparr>, 0)
      else case ParamBase_value p argv start of
          Inl e \<Rightarrow> Inl e
        | Inr (v, inc) \<Rightarrow>
            if param_type p = TString then Inr (p\<lparr>m_target := VStr v, m_found := True\<rparr>, inc)
            else (case conv (param_type p) v of
                None \<Rightarrow> Inl ConversionFailed
              | Some n \<Rightarrow> Inr (p\<lparr>m_target := VNum n, m_found := True\<rparr>, inc)))"

section \<open>The registry: \<^verbatim>\<open>Params\<close>\<close>

text \<open>
  \<^verbatim>\<open>map_\<close> and \<^verbatim>\<open>positional_\<close> hold shared pointers to descriptors. The descriptors
  live in a heap, a list indexed by address; \<^verbatim>\<open>make_shared\<close> allocates at its end.
  Every descriptor has a target of its own.
\<close>

record Params =
  m_strict :: bool
  m_map :: "(string \<times> nat) list"
  m_positional :: "nat list"

definition Params_new :: "bool \<Rightarrow> Params" where
  "Params_new strict = \<lparr>m_strict = strict, m_map = [], m_positional = []\<rparr>"

text \<open>The loop over \<^verbatim>\<open>names\<close> in \<^verbatim>\<open>Params::add\<close>, with its local \<^verbatim>\<open>option\<close>.\<close>

fun add_names ::
  "nat \<Rightarrow> string list \<Rightarrow> (string \<times> nat) list \<Rightarrow> bool \<Rightarrow> error + ((string \<times> nat) list \<times> bool)" where
  "add_names ptr [] m option = Inr (m, option)"
| "add_names ptr (name # names) m option =
     (if is_option name then add_names ptr names (AList.update name ptr m) True
      else if option then Inl AssertionFailed
      else add_names ptr names (AList.update name ptr m) option)"

definition Params_add ::
  "'n ParamBase list \<Rightarrow> Params \<Rightarrow> 'n val \<Rightarrow> ptype \<Rightarrow> string list \<Rightarrow> bool \<Rightarrow> bool \<Rightarrow> bool
     \<Rightarrow> error + ('n ParamBase list \<times> Params)" where
  "Params_add heap P target T names required option_indet found_indet =
     (let ptr = length heap;
          heap' = heap @ [Param_new target T names required option_indet found_indet]
      in case add_names ptr names (m_map P) False of
          Inl e \<Rightarrow> Inl e
        | Inr (m, option) \<Rightarrow>
            Inr (heap', P\<lparr>m_map := m,
                          m_positional := (if \<not> option then m_positional P @ [ptr]
                                          else m_positional P)\<rparr>))"

section \<open>\<^verbatim>\<open>Params::parse\<close>\<close>

text \<open>
  The state of the main loop: the heap of descriptors, the cursor \<^verbatim>\<open>start\<close> (an index
  into the token array), the iterator \<^verbatim>\<open>next\<close> (an index into \<^verbatim>\<open>positional_\<close>) and
  the flag \<^verbatim>\<open>positional_onward\<close>.
\<close>

record 'n scan =
  heap :: "'n ParamBase list"
  start :: nat
  next_positional :: nat
  positional_onward :: bool

text \<open>The positional branch of the loop body.\<close>

definition positional_token ::
  "(ptype \<Rightarrow> string \<Rightarrow> 'n option) \<Rightarrow> Params \<Rightarrow> string list \<Rightarrow> 'n scan
     \<Rightarrow> (error \<times> 'n scan) + 'n scan" where
  "positional_token conv P argv s =
     (if next_positional s < length (m_positional P) then
        (let ptr = m_positional P ! next_positional s in
         case Param_parse conv (heap s ! ptr) argv (start s) of
           Inl e \<Rightarrow> Inl (e, s)
         | Inr (p, inc) \<Rightarrow>
             Inr (s\<lparr>heap := (heap s)[ptr := p],
                    start := start s + nat inc,
                    next_positional := next_positional s + 1\<rparr>))
      else if m_strict P then Inl (Exception ''Unknown positional parameter.'', s)
      else Inr s)"

text \<open>
  The inner loop over the characters of a short-option token, from \<^verbatim>\<open>i = 1\<close>: \<open>cs\<close>
  are the characters still to scan, \<open>inc\<close> the current value of the local \<^verbatim>\<open>inc\<close>.
  The result is the value of \<^verbatim>\<open>inc\<close> and the heap when the loop is left.
\<close>

fun short_chars ::
  "(ptype \<Rightarrow> string \<Rightarrow> 'n option) \<Rightarrow> Params \<Rightarrow> string list \<Rightarrow> nat \<Rightarrow> string \<Rightarrow> int
     \<Rightarrow> 'n ParamBase list \<Rightarrow> (error \<times> 'n ParamBase list) + (int \<times> 'n ParamBase list)" where
  "short_chars conv P argv st [] inc h = Inr (inc, h)"
| "short_chars conv P argv st (c # cs) inc h =
     (case map_of (m_map P) [CHR ''-'', c] of
        Some ptr \<Rightarrow>
          (case Param_parse conv (h ! ptr) argv st of
             Inl e \<Rightarrow> Inl (e, h)
           | Inr (p, inc') \<Rightarrow>
               if inc' > 0 then Inr (inc', h[ptr := p])
               else short_chars conv P argv st cs inc' (h[ptr := p]))
      | None \<Rightarrow>
          if m_strict P then Inl (Exception ''Unknown short option.'', h)
          else short_chars conv P argv st cs inc h)"

text \<open>
  The short-option branch. The local \<^verbatim>\<open>inc\<close> is declared without an initial value;
  \<open>inc_indet\<close> is the indeterminate value it holds until a descriptor is matched.
\<close>

definition short_options ::
  "(ptype \<Rightarrow> string \<Rightarrow> 'n option) \<Rightarrow> int \<Rightarrow> Params \<Rightarrow> string list \<Rightarrow> 'n scan
     \<Rightarrow> (error \<times> 'n scan) + 'n scan" where
  "short_options conv inc_indet P argv s =
     (case short_chars conv P argv (start s) (drop 1 (argv ! start s)) inc_indet (heap s) of
        Inl (e, h) \<Rightarrow> Inl (e, s\<lparr>heap := h\<rparr>)
      | Inr (inc, h) \<Rightarrow>
          Inr (s\<lparr>heap := h, start := start s + nat (if inc > 0 then inc else 1)\<rparr>))"

text \<open>The long-option branch.\<close>

definition long_option ::
  "(ptype \<Rightarrow> string \<Rightarrow> 'n option) \<Rightarrow> Params \<Rightarrow> string list \<Rightarrow> 'n scan
     \<Rightarrow> (error \<times> 'n scan) + 'n scan" where
  "long_option conv P argv s =
     (let opt = takeWhile (\<lambda>c. c \<noteq> CHR ''='') (argv ! start s) in
      case map_of (m_map P) opt of
        Some ptr \<Rightarrow>
          (case Param_parse conv (heap s ! ptr) argv (start s) of
             Inl e \<Rightarrow> Inl (e, s)
           | Inr (p, inc) \<Rightarrow> Inr (s\<lparr>heap := (heap s)[ptr := p], start := start s + nat inc\<rparr>))
      | None \<Rightarrow>
          if m_strict P then Inl (Exception ''Unknown long option.'', s)
          else Inr s)"

text \<open>One iteration of the main loop, entered with \<open>start s < length argv\<close>.\<close>

definition loop_body ::
  "(ptype \<Rightarrow> string \<Rightarrow> 'n option) \<Rightarrow> int \<Rightarrow> Params \<Rightarrow> string list \<Rightarrow> 'n scan
     \<Rightarrow> (error \<times> 'n scan) + 'n scan" where
  "loop_body conv inc_indet P argv s =
     (let arg = argv ! start s in
      if positional_onward s \<or> arg = [] \<or> arg = ''-'' \<or> arg ! 0 \<noteq> CHR ''-''
      then positional_token conv P argv s
      else if arg = ''--'' then Inr (s\<lparr>positional_onward := True, start := start s + 1\<rparr>)
      else if arg ! 1 \<noteq> CHR ''-'' then short_options conv inc_indet P argv s
      else long_option conv P argv s)"

text \<open>
  The main loop, run for at most \<open>n\<close> iterations. The local \<^verbatim>\<open>inc\<close> is declared inside
  the loop body, so every iteration has an indeterminate value of its own:
  \<open>inc_indets k\<close> is the one of the \<open>k\<close>-th iteration from here, and the sequence is
  arbitrary (what an earlier iteration left behind is one possibility).
\<close>

fun parse_loop ::
  "(ptype \<Rightarrow> string \<Rightarrow> 'n option) \<Rightarrow> (nat \<Rightarrow> int) \<Rightarrow> Params \<Rightarrow> string list \<Rightarrow> nat
     \<Rightarrow> 'n scan \<Rightarrow> 'n scan outcome" where
  "parse_loop conv inc_indets P argv 0 s =
     (if start s < length argv then Running s else Returned s)"
| "parse_loop conv inc_indets P argv (Suc n) s =
     (if start s < length argv then
        (case loop_body conv (inc_indets 0) P argv s of
           Inl (e, s') \<Rightarrow> Thrown e s'
         | Inr s' \<Rightarrow> parse_loop conv (\<lambda>k. inc_indets (Suc k)) P argv n s')
      else Returned s)"

text \<open>
  The two loops after the scan call \<^verbatim>\<open>check\<close> on every descriptor of \<^verbatim>\<open>map_\<close>, then on
  every descriptor of \<^verbatim>\<open>positional_\<close>. Every \<^verbatim>\<open>check\<close> throws the same exception, so the
  iteration order of the unordered map does not show in the result.
\<close>

fun check_all :: "'n ParamBase list \<Rightarrow> nat list \<Rightarrow> error + unit" where
  "check_all h [] = Inr ()"
| "check_all h (ptr # ptrs) =
     (case ParamBase_check (h ! ptr) of Inl e \<Rightarrow> Inl e | Inr _ \<Rightarrow> check_all h ptrs)"

text \<open>
  \<^verbatim>\<open>Params::parse(argc, argv)\<close> with the main loop run for at most \<open>n\<close> iterations,
  \<open>inc_indets\<close> being the indeterminate values of \<^verbatim>\<open>inc\<close>, one per iteration.
  The result is the heap of descriptors when the call is left (or after \<open>n\<close>
  iterations).
\<close>

definition Params_parse ::
  "(ptype \<Rightarrow> string \<Rightarrow> 'n option) \<Rightarrow> (nat \<Rightarrow> int) \<Rightarrow> nat \<Rightarrow> Params \<Rightarrow> string list
     \<Rightarrow> 'n ParamBase list \<Rightarrow> 'n ParamBase list outcome" where
  "Params_parse conv inc_indets n P argv h =
     (case parse_loop conv inc_indets P argv n
             \<lparr>heap = h, start = 0, next_positional = 0, positional_onward = False\<rparr> of
        Running s \<Rightarrow> Running (heap s)
      | Thrown e s \<Rightarrow> Thrown e (heap s)
      | Returned s \<Rightarrow>
          (case check_all (heap s) (map snd (m_map P) @ m_positional P) of
             Inl e \<Rightarrow> Thrown e (heap s)
           | Inr _ \<Rightarrow> Returned (heap s)))"

section \<open>Notions used in the statements\<close>

text \<open>The state an outcome carries.\<close>

fun outcome_state :: "'s outcome \<Rightarrow> 's" where
  "outcome_state (Running s) = s"
| "outcome_state (Thrown e s) = s"
| "outcome_state (Returned s) = s"



text \<open>
  Binding a token to a descriptor: \<open>bound_to conv p tok\<close> is the descriptor \<open>p\<close> after
  the text \<open>tok\<close> itself has been stored in its slot (as it is for a string, converted
  for a number; \<open>None\<close> when the conversion fails) and it has been marked found.
  \<open>takes_text conv p tok\<close> says that \<open>p\<close> is a descriptor of the positional class
  (\<^verbatim>\<open>option_\<close> false) that is not a flag and for which the conversion of \<open>tok\<close>
  succeeds. \<open>nth_positional P s t\<close> is the descriptor that is \<open>t\<close> places after the
  iterator \<^verbatim>\<open>next\<close> in \<^verbatim>\<open>positional_\<close>.
\<close>

definition bound_to ::
  "(ptype \<Rightarrow> string \<Rightarrow> 'n option) \<Rightarrow> 'n ParamBase \<Rightarrow> string \<Rightarrow> 'n ParamBase option" where
  "bound_to conv p tok =
     (if param_type p = TString then Some (p\<lparr>m_target := VStr tok, m_found := True\<rparr>)
      else case conv (param_type p) tok of
          None \<Rightarrow> None
        | Some v \<Rightarrow> Some (p\<lparr>m_target := VNum v, m_found := True\<rparr>))"

definition takes_text :: "(ptype \<Rightarrow> string \<Rightarrow> 'n option) \<Rightarrow> 'n ParamBase \<Rightarrow> string \<Rightarrow> bool" where
  "takes_text conv p tok \<longleftrightarrow>
     \<not> m_option p \<and> param_type p \<noteq> TBool \<and> bound_to conv p tok \<noteq> None"

definition nth_positional :: "Params \<Rightarrow> 'n scan \<Rightarrow> nat \<Rightarrow> nat" where
  "nth_positional P s t = m_positional P ! (next_positional s + t)"

section \<open>Example schemas\<close>

text \<open>
  The examples register boolean and string parameters only, so no numeric conversion
  is ever called in them; \<open>no_conv\<close> fills the place of the conversions.
\<close>

definition no_conv :: "ptype \<Rightarrow> string \<Rightarrow> unit option" where
  "no_conv T v = None"

text \<open>The indeterminate values of \<^verbatim>\<open>inc\<close> in the examples: zero at every iteration.\<close>

definition inc_zero :: "nat \<Rightarrow> int" where
  "inc_zero k = 0"

text \<open>
  A strict registry with a flag \<^verbatim>\<open>-a\<close>, a string option \<^verbatim>\<open>-b\<close> and a string option
  registered under \<^verbatim>\<open>-ab\<close> only.
\<close>

definition cluster_heap :: "unit ParamBase list" where
  "cluster_heap =
     [\<lparr>m_names = [''-a''], m_option = True, m_required = False, m_found = False,
        param_type = TBool, m_target = VBool False\<rparr>,
      \<lparr>m_names = [''-b''], m_option = True, m_required = False, m_found = False,
        param_type = TString, m_target = VStr ''''\<rparr>,
      \<lparr>m_names = [''-ab''], m_option = True, m_required = False, m_found = False,
        param_type = TString, m_target = VStr ''''\<rparr>]"

definition cluster_params :: Params where
  "cluster_params =
     \<lparr>m_strict = True, m_map = [(''-a'', 0), (''-b'', 1), (''-ab'', 2)], m_positional = []\<rparr>"

text \<open>
  A strict registry with a flag \<^verbatim>\<open>-a\<close> and two required string positionals.
\<close>

definition copy_heap :: "unit ParamBase list" where
  "copy_heap =
     [\<lparr>m_names = [''-a''], m_option = True, m_required = False, m_found = False,
        param_type = TBool, m_target = VBool False\<rparr>,
      \<lparr>m_names = [''src''], m_option = False, m_required = True, m_found = False,
        param_type = TString, m_target = VStr ''''\<rparr>,
      \<lparr>m_names = [''dst''], m_option = False, m_required = True, m_found = False,
        param_type = TString, m_target = VStr ''''\<rparr>]"

definition copy_params :: Params where
  "copy_params =
     \<lparr>m_strict = True, m_map = [(''-a'', 0), (''src'', 1), (''dst'', 2)], m_positional = [1, 2]\<rparr>"

text \<open>A strict registry with one flag, registered under the long alias \<^verbatim>\<open>--name\<close>.\<close>

definition flag_heap :: "unit ParamBase list" where
  "flag_heap =
     [\<lparr>m_names = [''--name''], m_option = True, m_required = False, m_found = False,
        param_type = TBool, m_target = VBool False\<rparr>]"

definition flag_params :: Params where
  "flag_params = \<lparr>m_strict = True, m_map = [(''--name'', 0)], m_positional = []\<rparr>"

text \<open>A strict registry with one string option, registered under \<^verbatim>\<open>--count\<close>.\<close>

definition count_heap :: "unit ParamBase list" where
  "count_heap =
     [\<lparr>m_names = [''--count''], m_option = True, m_required = False, m_found = False,
        param_type = TString, m_target = VStr ''''\<rparr>]"

definition count_params :: Params where
  "count_params = \<lparr>m_strict = True, m_map = [(''--count'', 0)], m_positional = []\<rparr>"

text \<open>
  A strict registry with one required string positional, whose \<^verbatim>\<open>found_\<close> holds true
  from its allocation on.
\<close>

definition dest_heap :: "unit ParamBase list" where
  "dest_heap =
     [\<lparr>m_names = [''destination''], m_option = False, m_required = True, m_found = True,
        param_type = TString, m_target = VStr ''''\<rparr>]"

definition dest_params :: Params where
  "dest_params = \<lparr>m_strict = True, m_map = [(''destination'', 0)], m_positional = [0]\<rparr>"

text \<open>
  The registry of \<^verbatim>\<open>values.cpp\<close>: a flag, an unsigned long and a float option with a
  short and a long alias each, and a required string positional. \<open>count0\<close> and
  \<open>interval0\<close> are the initial values of the two numeric slots.
\<close>

definition values_heap :: "'n \<Rightarrow> 'n \<Rightarrow> 'n ParamBase list" where
  "values_heap count0 interval0 =
     [\<lparr>m_names = [''-a''], m_option = True, m_required = False, m_found = False,
        param_type = TBool, m_target = VBool False\<rparr>,
      \<lparr>m_names = [''-c'', ''--count''], m_option = True, m_required = False, m_found = False,
        param_type = TULong, m_target = VNum count0\<rparr>,
      \<lparr>m_names = [''-i'', ''--interval''], m_option = True, m_required = False, m_found = False,
        param_type = TFloat, m_target = VNum interval0\<rparr>,
      \<lparr>m_names = [''destination''], m_option = False, m_required = True, m_found = False,
        param_type = TString, m_target = VStr ''''\<rparr>]"

definition values_params :: Params where
  "values_params =
     \<lparr>m_strict = True,
      m_map = [(''-a'', 0), (''-c'', 1), (''--count'', 1), (''-i'', 2), (''--interval'', 2),
               (''destination'', 3)],
      m_positional = [3]\<rparr>"



section \<open>Registration\<close>

lemma cluster_schema_registered:
  "Params_add [] (Params_new True) (VBool False) TBool [''-a''] False False False
     = Inr (take 1 cluster_heap,
            \<lparr>m_strict = True, m_map = [(''-a'', 0)], m_positional = []\<rparr>)"
  "Params_add (take 1 cluster_heap)
       \<lparr>m_strict = True, m_map = [(''-a'', 0)], m_positional = []\<rparr>
       (VStr '''') TString [''-b''] False False False
     = Inr (take 2 cluster_heap,
            \<lparr>m_strict = True, m_map = [(''-a'', 0), (''-b'', 1)], m_positional = []\<rparr>)"
  "Params_add (take 2 cluster_heap)
       \<lparr>m_strict = True, m_map = [(''-a'', 0), (''-b'', 1)], m_positional = []\<rparr>
       (VStr '''') TString [''-ab''] False False False
     = Inr (cluster_heap, cluster_params)"
  by (simp_all add: Params_add_def Param_new_def Params_new_def is_option_def
      cluster_heap_def cluster_params_def)

lemma copy_schema_registered:
  "Params_add [] (Params_new True) (VBool False) TBool [''-a''] False False False
     = Inr (take 1 copy_heap,
            \<lparr>m_strict = True, m_map = [(''-a'', 0)], m_positional = []\<rparr>)"
  "Params_add (take 1 copy_heap)
       \<lparr>m_strict = True, m_map = [(''-a'', 0)], m_positional = []\<rparr>
       (VStr '''') TString [''src''] True False False
     = Inr (take 2 copy_heap,
            \<lparr>m_strict = True, m_map = [(''-a'', 0), (''src'', 1)], m_positional = [1]\<rparr>)"
  "Params_add (take 2 copy_heap)
       \<lparr>m_strict = True, m_map = [(''-a'', 0), (''src'', 1)], m_positional = [1]\<rparr>
       (VStr '''') TString [''dst''] True False False
     = Inr (copy_heap, copy_params)"
  by (simp_all add: Params_add_def Param_new_def Params_new_def is_option_def
      copy_heap_def copy_params_def)

lemma flag_schema_registered:
  "Params_add [] (Params_new True) (VBool False) TBool [''--name''] False False False
     = Inr (flag_heap, flag_params)"
  by (simp add: Params_add_def Param_new_def Params_new_def is_option_def
      flag_heap_def flag_params_def)

lemma count_schema_registered:
  "Params_add [] (Params_new True) (VStr '''') TString [''--count''] False False False
     = Inr (count_heap, count_params)"
  by (simp add: Params_add_def Param_new_def Params_new_def is_option_def
      count_heap_def count_params_def)

lemma values_schema_registered:
  "Params_add [] (Params_new True) (VBool False) TBool [''-a''] False False False
     = Inr (take 1 (values_heap c0 i0),
            \<lparr>m_strict = True, m_map = take 1 (m_map values_params), m_positional = []\<rparr>)"
  "Params_add (take 1 (values_heap c0 i0))
       \<lparr>m_strict = True, m_map = take 1 (m_map values_params), m_positional = []\<rparr>
       (VNum c0) TULong [''-c'', ''--count''] False False False
     = Inr (take 2 (values_heap c0 i0),
            \<lparr>m_strict = True, m_map = take 3 (m_map values_params), m_positional = []\<rparr>)"
  "Params_add (take 2 (values_heap c0 i0))
       \<lparr>m_strict = True, m_map = take 3 (m_map values_params), m_positional = []\<rparr>
       (VNum i0) TFloat [''-i'', ''--interval''] False False False
     = Inr (take 3 (values_heap c0 i0),
            \<lparr>m_strict = True, m_map = take 5 (m_map values_params), m_positional = []\<rparr>)"
  "Params_add (take 3 (values_heap c0 i0))
       \<lparr>m_strict = True, m_map = take 5 (m_map values_params), m_positional = []\<rparr>
       (VStr '''') TString [''destination''] True False False
     = Inr (values_heap c0 i0, values_params)"
  by (simp_all add: Params_add_def Param_new_def Params_new_def is_option_def
      values_heap_def values_params_def)

section \<open>The main loop\<close>

text \<open>An outcome other than \<open>Running\<close> is the same with more iterations allowed.\<close>

lemma parse_loop_more_iterations:
  "parse_loop conv i P argv n s = Returned s' \<Longrightarrow> parse_loop conv i P argv (n + k) s = Returned s'"
  "parse_loop conv i P argv n s = Thrown e s' \<Longrightarrow> parse_loop conv i P argv (n + k) s = Thrown e s'"
proof (induction n arbitrary: s i)
  case 0
  { case 1 then show ?case by (cases k) (auto split: if_splits) }
  { case 2 then show ?case by (auto split: if_splits) }
next
  case (Suc n)
  { case 1 then show ?case using Suc.IH(1) by (auto split: if_splits sum.splits prod.splits) }
  { case 2 then show ?case using Suc.IH(2) by (auto split: if_splits sum.splits prod.splits) }
qed

text \<open>A token that starts with two dashes and has more is handled by the long-option branch.\<close>

lemma long_token_body:
  assumes "\<not> positional_onward s" and "argv ! start s = CHR ''-'' # CHR ''-'' # c # rest"
  shows "loop_body conv i P argv s = long_option conv P argv s"
  using assms by (simp add: loop_body_def)

text \<open>
  The usage line of \<^verbatim>\<open>values.cpp\<close>, \<^verbatim>\<open>values -a -c 10 -i 2.5 192.168.0.1\<close>: every
  parameter is found and bound, given what the conversions return for the two numbers.
\<close>

lemma values_example:
  assumes "conv TULong ''10'' = Some ten" and "conv TFloat ''2.5'' = Some two_and_a_half"
  shows "Params_parse conv i 4 values_params
           [''-a'', ''-c'', ''10'', ''-i'', ''2.5'', ''192.168.0.1''] (values_heap c0 i0)
     = Returned
        [\<lparr>m_names = [''-a''], m_option = True, m_required = False, m_found = True,
           param_type = TBool, m_target = VBool True\<rparr>,
         \<lparr>m_names = [''-c'', ''--count''], m_option = True, m_required = False, m_found = True,
           param_type = TULong, m_target = VNum ten\<rparr>,
         \<lparr>m_names = [''-i'', ''--interval''], m_option = True, m_required = False, m_found = True,
           param_type = TFloat, m_target = VNum two_and_a_half\<rparr>,
         \<lparr>m_names = [''destination''], m_option = False, m_required = True, m_found = True,
           param_type = TString, m_target = VStr ''192.168.0.1''\<rparr>]"
  using assms
  by (simp add: Params_parse_def eval_nat_numeral loop_body_def short_options_def
      positional_token_def Param_parse_def ParamBase_value_def ParamBase_check_def
      values_params_def values_heap_def)

section \<open>Registration with no alias\<close>

text \<open>
  C9. The claim says that registration fails when the alias list is empty. The source
  accepts an empty list: the loop over the names does nothing, no assertion is
  evaluated, and the descriptor is appended to the positional descriptors, with no
  alias in the map. \<^verbatim>\<open>overview.cpp\<close> registers its required positional this way.
  The example is that registration on a fresh strict registry.
\<close>

theorem add_empty_names_example:
  "Params_add ([] :: unit ParamBase list) (Params_new True) (VStr '''') TString [] True False False
     = Inr ([\<lparr>m_names = [], m_option = False, m_required = True, m_found = False,
               param_type = TString, m_target = VStr ''''\<rparr>],
            \<lparr>m_strict = True, m_map = [], m_positional = [0]\<rparr>)"
  by (simp add: Params_add_def Param_new_def Params_new_def)

text \<open>
  C9, as amended. Registration with an empty alias list never fails: it allocates the
  descriptor, leaves the alias map as it is and appends the descriptor to the
  positional descriptors.
\<close>

theorem add_empty_names_accepted:
  "Params_add h P target T [] required option_indet found_indet =
     Inr (h @ [\<lparr>m_names = [], m_option = option_indet, m_required = required,
                 m_found = found_indet, param_type = T, m_target = target\<rparr>],
          P\<lparr>m_positional := m_positional P @ [length h]\<rparr>)"
  by (simp add: Params_add_def Param_new_def)

section \<open>Aliases that no token reaches\<close>










section \<open>After the terminator\<close>

lemma positional_only_body:
  "positional_onward s \<Longrightarrow> loop_body conv j P argv s = positional_token conv P argv s"
  by (simp add: loop_body_def)

lemma positional_token_onward:
  "positional_token conv P argv s = Inr s' \<Longrightarrow> positional_onward s' = positional_onward s"
  "positional_token conv P argv s = Inl (e, s') \<Longrightarrow> positional_onward s' = positional_onward s"
  by (auto simp: positional_token_def Let_def split: if_splits sum.splits prod.splits)

lemma positional_token_any_map:
  "positional_token conv (P\<lparr>m_map := m\<rparr>) argv s = positional_token conv P argv s"
  by (simp add: positional_token_def)

lemma positional_token_heap:
  assumes "d \<notin> set (m_positional P)"
  shows "positional_token conv P argv s = Inr s' \<Longrightarrow> heap s' ! d = heap s ! d"
    and "positional_token conv P argv s = Inl (e, s') \<Longrightarrow> heap s' ! d = heap s ! d"
proof -
  have "next_positional s < length (m_positional P)
      \<Longrightarrow> m_positional P ! next_positional s \<noteq> d"
    using assms by auto
  then show "positional_token conv P argv s = Inr s' \<Longrightarrow> heap s' ! d = heap s ! d"
    and "positional_token conv P argv s = Inl (e, s') \<Longrightarrow> heap s' ! d = heap s ! d"
    by (auto simp: positional_token_def Let_def split: if_splits sum.splits prod.splits)
qed

lemma positional_only_run:
  assumes "positional_onward s"
  shows "positional_onward (outcome_state (parse_loop conv i P argv n s))
     \<and> parse_loop conv i' (P\<lparr>m_map := m\<rparr>) argv n s = parse_loop conv i P argv n s
     \<and> (\<forall>d. d \<notin> set (m_positional P)
            \<longrightarrow> heap (outcome_state (parse_loop conv i P argv n s)) ! d = heap s ! d)"
  using assms
proof (induction n arbitrary: s i i')
  case 0
  then show ?case by simp
next
  case (Suc n)
  show ?case
  proof (cases "start s < length argv")
    case False
    with Suc.prems show ?thesis by simp
  next
    case True
    note body = positional_only_body[OF Suc.prems]
    show ?thesis
    proof (cases "positional_token conv P argv s")
      case (Inl r)
      obtain e s' where r: "r = (e, s')" by (cases r)
      show ?thesis
        using True Inl r body Suc.prems positional_token_onward(2)[of conv P argv s e s']
          positional_token_heap(2)[of _ P conv argv s e s']
        by (simp add: positional_token_any_map)
    next
      case (Inr s')
      have on: "positional_onward s'"
        using Inr Suc.prems positional_token_onward(1)[of conv P argv s s'] by simp
      show ?thesis
        using True Inr body Suc.prems
          Suc.IH[OF on, of "\<lambda>k. i (Suc k)" "\<lambda>k. i' (Suc k)"]
          positional_token_heap(1)[of _ P conv argv s s']
        by (simp add: positional_token_any_map)
    qed
  qed
qed

lemma positional_token_binds:
  assumes "start s < length argv" and "next_positional s < length (m_positional P)"
    and "takes_text conv (heap s ! nth_positional P s 0) (argv ! start s)"
  shows "positional_token conv P argv s =
     Inr (s\<lparr>heap := (heap s)[nth_positional P s 0 :=
                     the (bound_to conv (heap s ! nth_positional P s 0) (argv ! start s))],
            start := start s + 1,
            next_positional := next_positional s + 1\<rparr>)"
proof (cases "param_type (heap s ! nth_positional P s 0) = TString")
  case True
  with assms show ?thesis
    by (simp add: positional_token_def nth_positional_def takes_text_def bound_to_def
        Param_parse_def ParamBase_value_def Let_def)
next
  case False
  with assms obtain v where
    "conv (param_type (heap s ! nth_positional P s 0)) (argv ! start s) = Some v"
    by (auto simp: takes_text_def bound_to_def split: option.splits)
  with False assms show ?thesis
    by (simp add: positional_token_def nth_positional_def takes_text_def bound_to_def
        Param_parse_def ParamBase_value_def Let_def)
qed

lemma positional_run_binds:
  assumes "positional_onward s" and "distinct (m_positional P)"
    and "next_positional s + n \<le> length (m_positional P)" and "start s + n \<le> length argv"
    and "\<forall>t<n. nth_positional P s t < length (heap s)
            \<and> takes_text conv (heap s ! nth_positional P s t) (argv ! (start s + t))"
  shows "\<exists>s'. parse_loop conv i P argv n s
                = (if start s + n < length argv then Running s' else Returned s')
     \<and> start s' = start s + n \<and> next_positional s' = next_positional s + n
     \<and> length (heap s') = length (heap s)
     \<and> (\<forall>t<n. Some (heap s' ! nth_positional P s t)
                 = bound_to conv (heap s ! nth_positional P s t) (argv ! (start s + t)))
     \<and> (\<forall>d. (\<forall>t<n. d \<noteq> nth_positional P s t) \<longrightarrow> heap s' ! d = heap s ! d)"
  using assms
proof (induction n arbitrary: s i)
  case 0
  then show ?case by auto
next
  case (Suc n)
  let ?ptr = "nth_positional P s 0"
  let ?q = "the (bound_to conv (heap s ! ?ptr) (argv ! start s))"
  let ?s1 = "s\<lparr>heap := (heap s)[?ptr := ?q], start := start s + 1,
               next_positional := next_positional s + 1\<rparr>"
  have lt: "start s < length argv" "next_positional s < length (m_positional P)"
    using Suc.prems(3,4) by simp_all
  have ok0: "?ptr < length (heap s)" "takes_text conv (heap s ! ?ptr) (argv ! start s)"
    using Suc.prems(5) by auto
  have q: "bound_to conv (heap s ! ?ptr) (argv ! start s) = Some ?q"
    using ok0(2) by (auto simp: takes_text_def)
  have body: "loop_body conv (i 0) P argv s = Inr ?s1"
    using positional_only_body[OF Suc.prems(1)] positional_token_binds[OF lt ok0(2)] by simp
  have nth: "nth_positional P (s\<lparr>heap := h, start := st,
                 next_positional := Suc (next_positional s)\<rparr>) t = nth_positional P s (Suc t)"
    for t h st
    by (simp add: nth_positional_def)
  have neq: "nth_positional P s (Suc t) \<noteq> ?ptr" if "t < n" for t
    using that Suc.prems(2,3) by (simp add: nth_positional_def nth_eq_iff_index_eq)
  have on1: "positional_onward ?s1" using Suc.prems(1) by simp
  have len1: "next_positional ?s1 + n \<le> length (m_positional P)"
    "start ?s1 + n \<le> length argv"
    using Suc.prems(3,4) by simp_all
  have ok1: "\<forall>t<n. nth_positional P ?s1 t < length (heap ?s1)
            \<and> takes_text conv (heap ?s1 ! nth_positional P ?s1 t) (argv ! (start ?s1 + t))"
  proof (intro allI impI)
    fix t assume t: "t < n"
    then have "Suc t < Suc n" by simp
    with Suc.prems(5) have "nth_positional P s (Suc t) < length (heap s)"
      "takes_text conv (heap s ! nth_positional P s (Suc t)) (argv ! (start s + Suc t))"
      by blast+
    with neq[OF t] show "nth_positional P ?s1 t < length (heap ?s1)
            \<and> takes_text conv (heap ?s1 ! nth_positional P ?s1 t) (argv ! (start ?s1 + t))"
      by (simp add: nth)
  qed
  from Suc.IH[OF on1 Suc.prems(2) len1 ok1, of "\<lambda>k. i (Suc k)"]
  obtain s' where s':
    "parse_loop conv (\<lambda>k. i (Suc k)) P argv n ?s1
       = (if start ?s1 + n < length argv then Running s' else Returned s')"
    "start s' = start ?s1 + n" "next_positional s' = next_positional ?s1 + n"
    "length (heap s') = length (heap ?s1)"
    "\<forall>t<n. Some (heap s' ! nth_positional P ?s1 t)
                 = bound_to conv (heap ?s1 ! nth_positional P ?s1 t) (argv ! (start ?s1 + t))"
    "\<forall>d. (\<forall>t<n. d \<noteq> nth_positional P ?s1 t) \<longrightarrow> heap s' ! d = heap ?s1 ! d"
    by blast
  have run: "parse_loop conv i P argv (Suc n) s
                = (if start s + Suc n < length argv then Running s' else Returned s')"
    using lt(1) body s'(1) by simp
  have first: "heap s' ! ?ptr = ?q"
  proof -
    have "\<forall>t<n. ?ptr \<noteq> nth_positional P ?s1 t" using neq by (fastforce simp: nth)
    with s'(6) have "heap s' ! ?ptr = heap ?s1 ! ?ptr" by blast
    with ok0(1) show ?thesis by simp
  qed
  have bound: "Some (heap s' ! nth_positional P s t)
                 = bound_to conv (heap s ! nth_positional P s t) (argv ! (start s + t))"
    if "t < Suc n" for t
  proof (cases t)
    case 0
    with first q show ?thesis by simp
  next
    case (Suc t')
    with that have t': "t' < n" by simp
    from s'(5) t' have "Some (heap s' ! nth_positional P ?s1 t')
        = bound_to conv (heap ?s1 ! nth_positional P ?s1 t') (argv ! (start ?s1 + t'))"
      by blast
    with neq[OF t'] Suc show ?thesis by (simp add: nth)
  qed
  have rest: "heap s' ! d = heap s ! d" if "\<forall>t<Suc n. d \<noteq> nth_positional P s t" for d
  proof -
    from that have d0: "d \<noteq> ?ptr" by blast
    from that have "\<forall>t<n. d \<noteq> nth_positional P ?s1 t" by (auto simp: nth)
    with s'(6) have "heap s' ! d = heap ?s1 ! d" by blast
    with d0 show ?thesis by simp
  qed
  from run s'(2,3,4) bound rest show ?case by auto
qed

text \<open>
  C7. When the terminator \<^verbatim>\<open>--\<close> is consumed, the loop goes on from the state \<open>s1\<close>
  with \<^verbatim>\<open>positional_onward\<close> set, and \<open>s'\<close> is the state reached after \<open>n\<close> further
  iterations. Whatever \<open>n\<close> is: \<open>s'\<close> is still positional-only and its next token is
  handled by the positional branch; the run is the same under any other alias map \<open>m\<close>
  (and any indeterminate values of \<^verbatim>\<open>inc\<close>), so no token is matched as an option; and
  only positional descriptors are written. Moreover, when the next \<open>n\<close> tokens exist
  and the next \<open>n\<close> positional descriptors are descriptors of the positional class
  that are not flags, each of these tokens, whatever its text, is bound as it is to
  the descriptor of its rank: the cursor and the iterator have advanced by \<open>n\<close>, and
  nothing else is written.
\<close>

theorem terminator_switches_to_positional_only:
  assumes "start s < length argv" and "argv ! start s = ''--''" and "\<not> positional_onward s"
    and "s1 = s\<lparr>positional_onward := True, start := start s + 1\<rparr>"
    and "s' = outcome_state (parse_loop conv i' P argv n s1)"
  shows "parse_loop conv i P argv (Suc n) s = parse_loop conv i' P argv n s1
     \<and> positional_onward s'
     \<and> loop_body conv j P argv s' = positional_token conv P argv s'
     \<and> parse_loop conv i'' (P\<lparr>m_map := m\<rparr>) argv n s1 = parse_loop conv i' P argv n s1
     \<and> (\<forall>d. d \<notin> set (m_positional P) \<longrightarrow> heap s' ! d = heap s ! d)
     \<and> (distinct (m_positional P)
          \<and> next_positional s + n \<le> length (m_positional P)
          \<and> start s + 1 + n \<le> length argv
          \<and> (\<forall>t<n. nth_positional P s t < length (heap s)
                \<and> takes_text conv (heap s ! nth_positional P s t) (argv ! (start s + 1 + t)))
        \<longrightarrow> parse_loop conv i' P argv n s1
              = (if start s + 1 + n < length argv then Running s' else Returned s')
          \<and> start s' = start s + 1 + n
          \<and> next_positional s' = next_positional s + n
          \<and> (\<forall>t<n. Some (heap s' ! nth_positional P s t)
                = bound_to conv (heap s ! nth_positional P s t) (argv ! (start s + 1 + t)))
          \<and> (\<forall>d. (\<forall>t<n. d \<noteq> nth_positional P s t) \<longrightarrow> heap s' ! d = heap s ! d))"
proof -
  have enter: "loop_body conv (i 0) P argv s = Inr s1"
    using assms(2,3,4) by (simp add: loop_body_def)
  have on: "positional_onward s1" using assms(4) by simp
  have s1: "heap s1 = heap s" "start s1 = start s + 1" "next_positional s1 = next_positional s"
    using assms(4) by simp_all
  have nth: "nth_positional P s1 t = nth_positional P s t" for t
    using s1(3) by (simp add: nth_positional_def)
  have any_inc: "parse_loop conv i0 P argv n s1 = parse_loop conv i' P argv n s1" for i0
    using positional_only_run[OF on, of conv i' P argv n i0 "m_map P"] by simp
  have routed: "parse_loop conv i P argv (Suc n) s = parse_loop conv i' P argv n s1
     \<and> positional_onward s'
     \<and> loop_body conv j P argv s' = positional_token conv P argv s'
     \<and> parse_loop conv i'' (P\<lparr>m_map := m\<rparr>) argv n s1 = parse_loop conv i' P argv n s1
     \<and> (\<forall>d. d \<notin> set (m_positional P) \<longrightarrow> heap s' ! d = heap s ! d)"
    using assms(1,5) enter s1(1) any_inc[of "\<lambda>k. i (Suc k)"]
      positional_only_run[OF on, of conv i' P argv n i'' m]
      positional_only_body[of s' conv j P argv]
    by simp
  have bound: "parse_loop conv i' P argv n s1
              = (if start s + 1 + n < length argv then Running s' else Returned s')
          \<and> start s' = start s + 1 + n
          \<and> next_positional s' = next_positional s + n
          \<and> (\<forall>t<n. Some (heap s' ! nth_positional P s t)
                = bound_to conv (heap s ! nth_positional P s t) (argv ! (start s + 1 + t)))
          \<and> (\<forall>d. (\<forall>t<n. d \<noteq> nth_positional P s t) \<longrightarrow> heap s' ! d = heap s ! d)"
    if h: "distinct (m_positional P)" "next_positional s + n \<le> length (m_positional P)"
      "start s + 1 + n \<le> length argv"
      "\<forall>t<n. nth_positional P s t < length (heap s)
                \<and> takes_text conv (heap s ! nth_positional P s t) (argv ! (start s + 1 + t))"
  proof -
    have "\<exists>s2. parse_loop conv i' P argv n s1
                = (if start s1 + n < length argv then Running s2 else Returned s2)
       \<and> start s2 = start s1 + n \<and> next_positional s2 = next_positional s1 + n
       \<and> length (heap s2) = length (heap s1)
       \<and> (\<forall>t<n. Some (heap s2 ! nth_positional P s1 t)
                 = bound_to conv (heap s1 ! nth_positional P s1 t) (argv ! (start s1 + t)))
       \<and> (\<forall>d. (\<forall>t<n. d \<noteq> nth_positional P s1 t) \<longrightarrow> heap s2 ! d = heap s1 ! d)"
      using h by (intro positional_run_binds[OF on]) (simp_all add: s1 nth)
    then obtain s2 where s2:
      "parse_loop conv i' P argv n s1
                = (if start s1 + n < length argv then Running s2 else Returned s2)"
      "start s2 = start s1 + n" "next_positional s2 = next_positional s1 + n"
      "\<forall>t<n. Some (heap s2 ! nth_positional P s1 t)
                 = bound_to conv (heap s1 ! nth_positional P s1 t) (argv ! (start s1 + t))"
      "\<forall>d. (\<forall>t<n. d \<noteq> nth_positional P s1 t) \<longrightarrow> heap s2 ! d = heap s1 ! d"
      by blast
    from s2(1) assms(5) have "s' = s2" by (simp split: if_splits)
    with s2 show ?thesis by (simp add: s1 nth)
  qed
  from routed bound show ?thesis by blast
qed

text \<open>
  The tokens \<^verbatim>\<open>--\<close>, \<^verbatim>\<open>-a\<close>, \<^verbatim>\<open>--\<close> on the example registry: the alias \<^verbatim>\<open>-a\<close> and
  the second \<^verbatim>\<open>--\<close> are bound, as they are, to the two positional descriptors.
\<close>

theorem terminator_switches_to_positional_only_witness:
  "start \<lparr>heap = copy_heap, start = 0, next_positional = 0, positional_onward = False\<rparr>
      < length [''--'', ''-a'', ''--''] \<and>
   [''--'', ''-a'', ''--''] !
      start \<lparr>heap = copy_heap, start = 0, next_positional = 0, positional_onward = False\<rparr> = ''--'' \<and>
   \<not> positional_onward
      \<lparr>heap = copy_heap, start = 0, next_positional = 0, positional_onward = False\<rparr> \<and>
   distinct (m_positional copy_params) \<and>
   takes_text no_conv (copy_heap ! 1) ''-a'' \<and> takes_text no_conv (copy_heap ! 2) ''--'' \<and>
   parse_loop no_conv inc_zero copy_params [''--'', ''-a'', ''--''] (Suc 2)
      \<lparr>heap = copy_heap, start = 0, next_positional = 0, positional_onward = False\<rparr>
    = Returned
       \<lparr>heap = [copy_heap ! 0,
                (copy_heap ! 1)\<lparr>m_target := VStr ''-a'', m_found := True\<rparr>,
                (copy_heap ! 2)\<lparr>m_target := VStr ''--'', m_found := True\<rparr>],
        start = 3, next_positional = 2, positional_onward = True\<rparr> \<and>
   parse_loop no_conv (\<lambda>k. 1) (copy_params\<lparr>m_map := []\<rparr>) [''--'', ''-a'', ''--''] 2
      \<lparr>heap = copy_heap, start = 1, next_positional = 0, positional_onward = True\<rparr>
    = parse_loop no_conv inc_zero copy_params [''--'', ''-a'', ''--''] 2
      \<lparr>heap = copy_heap, start = 1, next_positional = 0, positional_onward = True\<rparr>"
proof -
  let ?s = "\<lparr>heap = copy_heap, start = 0, next_positional = 0, positional_onward = False\<rparr>"
  let ?s1 = "\<lparr>heap = copy_heap, start = 1, next_positional = 0, positional_onward = True\<rparr>"
  let ?argv = "[''--'', ''-a'', ''--'']"
  let ?s' = "outcome_state (parse_loop no_conv inc_zero copy_params ?argv 2 ?s1)"
  have h: "start ?s < length ?argv" "?argv ! start ?s = ''--''" "\<not> positional_onward ?s"
    "?s1 = ?s\<lparr>positional_onward := True, start := start ?s + 1\<rparr>"
    by simp_all
  note inst = terminator_switches_to_positional_only [where conv = no_conv and i = inc_zero
        and i' = inc_zero and P = copy_params and n = 2 and i'' = "\<lambda>k. 1" and m = "[]"
        and j = 0, OF h refl]
  have tt: "takes_text no_conv (copy_heap ! 1) ''-a''" "takes_text no_conv (copy_heap ! 2) ''--''"
    by (simp_all add: takes_text_def bound_to_def copy_heap_def)
  have pre: "distinct (m_positional copy_params)
      \<and> next_positional ?s + 2 \<le> length (m_positional copy_params)
      \<and> start ?s + 1 + 2 \<le> length ?argv
      \<and> (\<forall>t<2. nth_positional copy_params ?s t < length (heap ?s)
            \<and> takes_text no_conv (heap ?s ! nth_positional copy_params ?s t)
                 (?argv ! (start ?s + 1 + t)))"
    using tt by (simp add: copy_params_def nth_positional_def less_2_cases_iff copy_heap_def)
  from inst have first: "parse_loop no_conv inc_zero copy_params ?argv (Suc 2) ?s
        = parse_loop no_conv inc_zero copy_params ?argv 2 ?s1"
    and anymap: "parse_loop no_conv (\<lambda>k. 1) (copy_params\<lparr>m_map := []\<rparr>) ?argv 2 ?s1
        = parse_loop no_conv inc_zero copy_params ?argv 2 ?s1"
    by blast+
  from inst pre have bound: "\<forall>t<2. Some (heap ?s' ! nth_positional copy_params ?s t)
                = bound_to no_conv (heap ?s ! nth_positional copy_params ?s t)
                    (?argv ! (start ?s + 1 + t))"
    by blast
  have val: "parse_loop no_conv inc_zero copy_params ?argv 2 ?s1
    = Returned
       \<lparr>heap = [copy_heap ! 0,
                (copy_heap ! 1)\<lparr>m_target := VStr ''-a'', m_found := True\<rparr>,
                (copy_heap ! 2)\<lparr>m_target := VStr ''--'', m_found := True\<rparr>],
        start = 3, next_positional = 2, positional_onward = True\<rparr>"
    by (simp add: numeral_2_eq_2 loop_body_def positional_token_def
        Param_parse_def ParamBase_value_def copy_params_def copy_heap_def)
  from h tt pre first anymap val show ?thesis by simp
qed

section \<open>Tokens the loop never gets past\<close>

lemma lenient_exhausted_body:
  assumes "\<not> m_strict P"
    and "positional_onward s \<or> argv ! start s = [] \<or> argv ! start s = ''-''
          \<or> argv ! start s ! 0 \<noteq> CHR ''-''"
    and "\<not> next_positional s < length (m_positional P)"
  shows "loop_body conv i P argv s = Inr s"
  using assms by (auto simp: loop_body_def positional_token_def)

text \<open>
  C3. The claim says that parse terminates on every schema and token array, and that
  a lenient parse skips a positional token that finds no positional descriptor left.
  In the source that branch (lines 287-296) changes nothing when \<^verbatim>\<open>strict_\<close> is false:
  it leaves \<^verbatim>\<open>start\<close> where it is and continues. The loop is then in the same state
  after any number of iterations, and never returns.
\<close>

theorem lenient_exhausted_positional_never_advances:
  assumes "\<not> m_strict P" and "start s < length argv"
    and "positional_onward s \<or> argv ! start s = [] \<or> argv ! start s = ''-''
          \<or> argv ! start s ! 0 \<noteq> CHR ''-''"
    and "\<not> next_positional s < length (m_positional P)"
  shows "parse_loop conv i P argv n s = Running s"
proof (induction n arbitrary: i)
  case 0
  from assms(2) show ?case by simp
next
  case (Suc n)
  from assms(2) lenient_exhausted_body[OF assms(1,3,4), where conv = conv and i = "i 0"]
    Suc[of "\<lambda>k. i (Suc k)"]
  show ?case by simp
qed

text \<open>
  A lenient registry with no descriptor, on the single token \<^verbatim>\<open>x\<close>: the call is still
  running after \<open>n\<close> iterations, for every \<open>n\<close>.
\<close>

theorem lenient_exhausted_positional_never_advances_witness:
  "\<forall>n. Params_parse no_conv inc_zero n (Params_new False) [''x''] [] = Running []"
proof
  fix n
  let ?s = "\<lparr>heap = [] :: unit ParamBase list, start = 0, next_positional = 0,
             positional_onward = False\<rparr>"
  have "parse_loop no_conv inc_zero (Params_new False) [''x''] n ?s = Running ?s"
    by (rule lenient_exhausted_positional_never_advances) (simp_all add: Params_new_def)
  then show "Params_parse no_conv inc_zero n (Params_new False) [''x''] [] = Running []"
    by (simp add: Params_parse_def)
qed

text \<open>
  C6. The claim says that a lenient parse skips an unmatched long option, the cursor
  advancing by one. In the source the long-option branch (lines 341-351) advances
  \<^verbatim>\<open>start\<close> only when the alias is found; on a miss a lenient parse leaves the state as
  it is, so the loop never gets past the token. (The strict half of the claim holds:
  see \<open>strict_unknown_long_option_throws\<close> below.)
\<close>

theorem lenient_unknown_long_option_never_advances:
  assumes "\<not> m_strict P" and "start s < length argv" and "\<not> positional_onward s"
    and "argv ! start s = CHR ''-'' # CHR ''-'' # c # rest"
    and "map_of (m_map P) (takeWhile (\<lambda>c. c \<noteq> CHR ''='') (argv ! start s)) = None"
  shows "parse_loop conv i P argv n s = Running s"
proof (induction n arbitrary: i)
  case 0
  from assms(2) show ?case by simp
next
  case (Suc n)
  have "loop_body conv (i 0) P argv s = Inr s"
    using assms(1,5) long_token_body[OF assms(3,4)] by (simp add: long_option_def)
  with assms(2) Suc[of "\<lambda>k. i (Suc k)"] show ?case by simp
qed

text \<open>
  A lenient registry with no descriptor, on the single token \<^verbatim>\<open>--bogus\<close>.
\<close>

theorem lenient_unknown_long_option_never_advances_witness:
  "\<forall>n. Params_parse no_conv inc_zero n (Params_new False) [''--bogus''] [] = Running []"
proof
  fix n
  let ?s = "\<lparr>heap = [] :: unit ParamBase list, start = 0, next_positional = 0,
             positional_onward = False\<rparr>"
  have "parse_loop no_conv inc_zero (Params_new False) [''--bogus''] n ?s = Running ?s"
    by (rule lenient_unknown_long_option_never_advances[where c = "CHR ''b''" and rest = "''ogus''"])
       (simp_all add: Params_new_def)
  then show "Params_parse no_conv inc_zero n (Params_new False) [''--bogus''] [] = Running []"
    by (simp add: Params_parse_def)
qed

lemma strict_unknown_long_option_throws:
  assumes "m_strict P" and "start s < length argv" and "\<not> positional_onward s"
    and "argv ! start s = CHR ''-'' # CHR ''-'' # c # rest"
    and "map_of (m_map P) (takeWhile (\<lambda>c. c \<noteq> CHR ''='') (argv ! start s)) = None"
  shows "parse_loop conv i P argv (Suc n) s = Thrown (Exception ''Unknown long option.'') s"
  using assms(1,2,5) long_token_body[OF assms(3,4)] by (simp add: long_option_def)

text \<open>
  C5. The claim says that a flag matched by a long-option token consumes that token and
  the scan goes on with the next one. In the source \<^verbatim>\<open>Param<bool>::parse\<close> returns 0 and
  the long-option branch adds the returned value to \<^verbatim>\<open>start\<close> (line 346), where the
  short-option branch adds 1 in this case (line 336). The flag is set and marked found
  by the first iteration, and the cursor stays on the token for ever.
\<close>

theorem long_flag_never_advances:
  assumes "start s < length argv" and "\<not> positional_onward s"
    and "argv ! start s = CHR ''-'' # CHR ''-'' # c # rest"
    and "map_of (m_map P) (takeWhile (\<lambda>c. c \<noteq> CHR ''='') (argv ! start s)) = Some ptr"
    and "ptr < length (heap s)" and "param_type (heap s ! ptr) = TBool"
  shows "parse_loop conv i P argv (Suc n) s =
     Running (s\<lparr>heap := (heap s)[ptr := (heap s ! ptr)\<lparr>m_target := VBool True, m_found := True\<rparr>]\<rparr>)"
proof -
  let ?p = "(heap s ! ptr)\<lparr>m_target := VBool True, m_found := True\<rparr>"
  let ?s' = "s\<lparr>heap := (heap s)[ptr := ?p]\<rparr>"
  have first: "loop_body conv j P argv s = Inr ?s'" for j
    using assms(1,4,6) long_token_body[OF assms(2,3)]
    by (simp add: long_option_def Param_parse_def)
  have again: "loop_body conv j P argv ?s' = Inr ?s'" for j
  proof -
    have "\<not> positional_onward ?s'" "argv ! start ?s' = CHR ''-'' # CHR ''-'' # c # rest"
      using assms(2,3) by simp_all
    from long_token_body[OF this]
    have "loop_body conv j P argv ?s' = long_option conv P argv ?s'" .
    also have "\<dots> = Inr ?s'"
      using assms(1,3,4,5,6) by (simp add: long_option_def Param_parse_def)
    finally show ?thesis .
  qed
  have stuck: "parse_loop conv i' P argv k ?s' = Running ?s'" for k i'
  proof (induction k arbitrary: i')
    case 0
    from assms(1) show ?case by simp
  next
    case (Suc k)
    from assms(1) again[of "i' 0"] Suc[of "\<lambda>k. i' (Suc k)"] show ?case by simp
  qed
  from assms(1) first[of "i 0"] stuck[of "\<lambda>k. i (Suc k)" n] show ?thesis by simp
qed

text \<open>
  The flag \<^verbatim>\<open>--name\<close> on the single token \<^verbatim>\<open>--name\<close>.
\<close>

theorem long_flag_never_advances_witness:
  "\<forall>n. Params_parse no_conv inc_zero (Suc n) flag_params [''--name''] flag_heap
     = Running [\<lparr>m_names = [''--name''], m_option = True, m_required = False, m_found = True,
                  param_type = TBool, m_target = VBool True\<rparr>]"
proof
  fix n
  let ?s = "\<lparr>heap = flag_heap, start = 0, next_positional = 0, positional_onward = False\<rparr>"
  have "parse_loop no_conv inc_zero flag_params [''--name''] (Suc n) ?s =
     Running (?s\<lparr>heap := (heap ?s)[0 := (heap ?s ! 0)\<lparr>m_target := VBool True, m_found := True\<rparr>]\<rparr>)"
    by (rule long_flag_never_advances[where c = "CHR ''n''" and rest = "''ame''"])
       (simp_all add: flag_params_def flag_heap_def)
  then show "Params_parse no_conv inc_zero (Suc n) flag_params [''--name''] flag_heap
     = Running [\<lparr>m_names = [''--name''], m_option = True, m_required = False, m_found = True,
                  param_type = TBool, m_target = VBool True\<rparr>]"
    by (simp add: Params_parse_def flag_heap_def)
qed

section \<open>Values of options\<close>

text \<open>
  C1. The claim says that \<^verbatim>\<open>--count V\<close> binds the same value as \<^verbatim>\<open>--count=V\<close>, the
  value being the next token and the consumption 2. In the source \<^verbatim>\<open>value\<close> tests
  \<^verbatim>\<open>opt.size() > 2\<close> (line 82, commented as the short option with an appended value)
  before it looks at the next token, and every long alias has more than two
  characters: the token \<^verbatim>\<open>--count\<close> yields the text \<^verbatim>\<open>count\<close> with consumption 1,
  whatever \<open>V\<close> is. Stated for a string option, whose slot holds the text itself.
\<close>

theorem long_option_separate_value_not_read:
  assumes "map_of (m_map P) ''--count'' = Some ptr"
    and "m_option (h ! ptr)" and "param_type (h ! ptr) = TString"
  shows "loop_body conv i P [''--count'', V]
           \<lparr>heap = h, start = 0, next_positional = 0, positional_onward = False\<rparr>
         = Inr \<lparr>heap = h[ptr := (h ! ptr)\<lparr>m_target := VStr ''count'', m_found := True\<rparr>],
                start = 1, next_positional = 0, positional_onward = False\<rparr>
     \<and> loop_body conv i P [''--count='' @ V]
           \<lparr>heap = h, start = 0, next_positional = 0, positional_onward = False\<rparr>
         = Inr \<lparr>heap = h[ptr := (h ! ptr)\<lparr>m_target := VStr V, m_found := True\<rparr>],
                start = 1, next_positional = 0, positional_onward = False\<rparr>"
  using assms
  by (simp add: loop_body_def long_option_def Param_parse_def ParamBase_value_def)

text \<open>
  For a parameter of any type, \<^verbatim>\<open>--count V\<close> is converted as \<^verbatim>\<open>--count=count\<close> is.
\<close>

lemma long_option_separate_value_as_attached:
  assumes "m_option p"
  shows "Param_parse conv p [''--count'', V] 0 = Param_parse conv p [''--count=count''] 0"
  using assms by (simp add: Param_parse_def ParamBase_value_def)

text \<open>
  The string option \<^verbatim>\<open>--count\<close> with the value \<^verbatim>\<open>10\<close>, in both forms, and the two
  complete calls: the separate form stores \<^verbatim>\<open>count\<close> and then fails on the token
  \<^verbatim>\<open>10\<close>, for which no positional descriptor exists.
\<close>

theorem long_option_separate_value_not_read_witness:
  "map_of (m_map count_params) ''--count'' = Some 0 \<and>
   m_option (count_heap ! 0) \<and> param_type (count_heap ! 0) = TString \<and>
   loop_body no_conv 0 count_params [''--count'', ''10'']
       \<lparr>heap = count_heap, start = 0, next_positional = 0, positional_onward = False\<rparr>
     = Inr \<lparr>heap = [(count_heap ! 0)\<lparr>m_target := VStr ''count'', m_found := True\<rparr>],
            start = 1, next_positional = 0, positional_onward = False\<rparr> \<and>
   loop_body no_conv 0 count_params [''--count=10'']
       \<lparr>heap = count_heap, start = 0, next_positional = 0, positional_onward = False\<rparr>
     = Inr \<lparr>heap = [(count_heap ! 0)\<lparr>m_target := VStr ''10'', m_found := True\<rparr>],
            start = 1, next_positional = 0, positional_onward = False\<rparr> \<and>
   Params_parse no_conv inc_zero 2 count_params [''--count'', ''10''] count_heap
     = Thrown (Exception ''Unknown positional parameter.'')
         [(count_heap ! 0)\<lparr>m_target := VStr ''count'', m_found := True\<rparr>] \<and>
   Params_parse no_conv inc_zero 2 count_params [''--count=10''] count_heap
     = Returned [(count_heap ! 0)\<lparr>m_target := VStr ''10'', m_found := True\<rparr>]"
proof -
  have h: "map_of (m_map count_params) ''--count'' = Some 0"
    "m_option (count_heap ! 0)" "param_type (count_heap ! 0) = TString"
    by (simp_all add: count_params_def count_heap_def)
  have run: "Params_parse no_conv inc_zero 2 count_params [''--count'', ''10''] count_heap
     = Thrown (Exception ''Unknown positional parameter.'')
         [(count_heap ! 0)\<lparr>m_target := VStr ''count'', m_found := True\<rparr>]"
    "Params_parse no_conv inc_zero 2 count_params [''--count=10''] count_heap
     = Returned [(count_heap ! 0)\<lparr>m_target := VStr ''10'', m_found := True\<rparr>]"
    by (simp_all add: Params_parse_def numeral_2_eq_2 loop_body_def long_option_def
        positional_token_def Param_parse_def ParamBase_value_def ParamBase_check_def
        count_params_def count_heap_def)
  show ?thesis
    using h run long_option_separate_value_not_read [OF h, of no_conv 0 "''10''"]
    by (simp add: count_heap_def)
qed

text \<open>
  C2. The claim says that \<^verbatim>\<open>-ab 5\<close> sets the flag \<^verbatim>\<open>-a\<close>, binds \<^verbatim>\<open>5\<close> to \<^verbatim>\<open>-b\<close> and
  consumes two tokens. In the source the descriptor of \<^verbatim>\<open>-b\<close> is handed the whole
  token \<^verbatim>\<open>-ab\<close> (line 322), and \<^verbatim>\<open>value\<close> takes what follows its first two characters
  for an appended value (lines 82-87): \<^verbatim>\<open>-b\<close> is bound to its own letter \<^verbatim>\<open>b\<close>, and
  one token is consumed.
\<close>

theorem cluster_value_option_reads_own_letter:
  assumes "map_of (m_map P) ''-a'' = Some pa" and "map_of (m_map P) ''-b'' = Some pb"
    and "param_type (h ! pa) = TBool"
    and "param_type (h ! pb) = TString" and "m_option (h ! pb)"
  shows "loop_body conv i P [''-ab'', ''5'']
           \<lparr>heap = h, start = 0, next_positional = 0, positional_onward = False\<rparr>
         = Inr \<lparr>heap = h[pa := (h ! pa)\<lparr>m_target := VBool True, m_found := True\<rparr>,
                         pb := (h ! pb)\<lparr>m_target := VStr ''b'', m_found := True\<rparr>],
                start = 1, next_positional = 0, positional_onward = False\<rparr>"
proof -
  have "pa \<noteq> pb" using assms(3,4) by auto
  then show ?thesis
    using assms
    by (simp add: loop_body_def short_options_def Param_parse_def ParamBase_value_def)
qed

text \<open>
  The example registry on the tokens \<^verbatim>\<open>-ab\<close>, \<^verbatim>\<open>5\<close>, and the complete call: the
  token \<^verbatim>\<open>5\<close> is left over as a positional that no descriptor takes.
\<close>

theorem cluster_value_option_reads_own_letter_witness:
  "map_of (m_map cluster_params) ''-a'' = Some 0 \<and>
   map_of (m_map cluster_params) ''-b'' = Some 1 \<and>
   param_type (cluster_heap ! 0) = TBool \<and>
   param_type (cluster_heap ! 1) = TString \<and> m_option (cluster_heap ! 1) \<and>
   loop_body no_conv 0 cluster_params [''-ab'', ''5'']
       \<lparr>heap = cluster_heap, start = 0, next_positional = 0, positional_onward = False\<rparr>
     = Inr \<lparr>heap = cluster_heap
                [0 := (cluster_heap ! 0)\<lparr>m_target := VBool True, m_found := True\<rparr>,
                 1 := (cluster_heap ! 1)\<lparr>m_target := VStr ''b'', m_found := True\<rparr>],
            start = 1, next_positional = 0, positional_onward = False\<rparr> \<and>
   Params_parse no_conv inc_zero 2 cluster_params [''-ab'', ''5''] cluster_heap
     = Thrown (Exception ''Unknown positional parameter.'')
         (cluster_heap
            [0 := (cluster_heap ! 0)\<lparr>m_target := VBool True, m_found := True\<rparr>,
             1 := (cluster_heap ! 1)\<lparr>m_target := VStr ''b'', m_found := True\<rparr>])"
proof -
  have h: "map_of (m_map cluster_params) ''-a'' = Some 0"
    "map_of (m_map cluster_params) ''-b'' = Some 1"
    "param_type (cluster_heap ! 0) = TBool"
    "param_type (cluster_heap ! 1) = TString" "m_option (cluster_heap ! 1)"
    by (simp_all add: cluster_params_def cluster_heap_def)
  note body = cluster_value_option_reads_own_letter [OF h, of no_conv 0]
  have "Params_parse no_conv inc_zero 2 cluster_params [''-ab'', ''5''] cluster_heap
     = Thrown (Exception ''Unknown positional parameter.'')
         (cluster_heap
            [0 := (cluster_heap ! 0)\<lparr>m_target := VBool True, m_found := True\<rparr>,
             1 := (cluster_heap ! 1)\<lparr>m_target := VStr ''b'', m_found := True\<rparr>])"
    using body
    by (simp add: Params_parse_def numeral_2_eq_2 inc_zero_def)
       (simp add: loop_body_def positional_token_def cluster_params_def)
  with h body show ?thesis by simp
qed

text \<open>
  C8. The claim says that a non-boolean option that expects its value in the next
  token fails with a missing-value error when it is the last token. For a long option
  without \<^verbatim>\<open>=\<close> the source never looks for a next token (line 82): the option is bound
  to its own name without the two dashes, and the call returns normally. (For a short
  option the assertion of line 89 fails: see \<open>short_option_last_token_assertion\<close>
  below.)
\<close>

theorem long_option_last_token_no_missing_value:
  assumes "start s + 1 = length argv" and "\<not> positional_onward s"
    and "argv ! start s = CHR ''-'' # CHR ''-'' # c # rest"
    and "CHR ''='' \<notin> set (argv ! start s)"
    and "map_of (m_map P) (argv ! start s) = Some ptr"
    and "m_option (heap s ! ptr)" and "param_type (heap s ! ptr) = TString"
  shows "parse_loop conv i P argv (Suc n) s =
     Returned (s\<lparr>heap := (heap s)[ptr := (heap s ! ptr)\<lparr>m_target := VStr (c # rest),
                                                         m_found := True\<rparr>],
                 start := length argv\<rparr>)"
proof -
  have key: "takeWhile (\<lambda>c. c \<noteq> CHR ''='') (argv ! start s) = argv ! start s"
    using assms(4) by (auto simp: takeWhile_eq_all_conv)
  have lt: "start s < length argv" using assms(1) by simp
  have "loop_body conv (i 0) P argv s =
     Inr (s\<lparr>heap := (heap s)[ptr := (heap s ! ptr)\<lparr>m_target := VStr (c # rest),
                                                     m_found := True\<rparr>],
            start := length argv\<rparr>)"
    using assms(1,4,5,6,7) lt key long_token_body[OF assms(2,3), where conv = conv and i = "i 0" and P = P]
    by (simp add: long_option_def Param_parse_def ParamBase_value_def assms(3))
  with lt show ?thesis by (cases n) simp_all
qed

text \<open>
  The string option \<^verbatim>\<open>--count\<close> on the single token \<^verbatim>\<open>--count\<close>.
\<close>

theorem long_option_last_token_no_missing_value_witness:
  "Params_parse no_conv inc_zero (Suc 0) count_params [''--count''] count_heap
     = Returned [(count_heap ! 0)\<lparr>m_target := VStr ''count'', m_found := True\<rparr>]"
proof -
  let ?s = "\<lparr>heap = count_heap, start = 0, next_positional = 0, positional_onward = False\<rparr>"
  have "parse_loop no_conv inc_zero count_params [''--count''] (Suc 0) ?s =
     Returned (?s\<lparr>heap := (heap ?s)[0 := (heap ?s ! 0)\<lparr>m_target := VStr (CHR ''c'' # ''ount''),
                                                          m_found := True\<rparr>],
                 start := length [''--count'']\<rparr>)"
    by (rule long_option_last_token_no_missing_value)
       (simp_all add: count_params_def count_heap_def)
  then show ?thesis
    by (simp add: Params_parse_def ParamBase_check_def count_params_def count_heap_def)
qed

lemma short_option_last_token_assertion:
  assumes "start s + 1 = length argv" and "\<not> positional_onward s"
    and "argv ! start s = [CHR ''-'', c]" and "c \<noteq> CHR ''-''" and "c \<noteq> CHR ''=''"
    and "map_of (m_map P) [CHR ''-'', c] = Some ptr"
    and "m_option (heap s ! ptr)" and "param_type (heap s ! ptr) \<noteq> TBool"
  shows "parse_loop conv i P argv (Suc n) s = Thrown AssertionFailed s"
proof -
  have lt: "start s < length argv" using assms(1) by simp
  have "\<not> Suc (start s) < length argv" using assms(1) by simp
  then have "loop_body conv (i 0) P argv s = Inl (AssertionFailed, s)"
    using assms(2-8) lt
    by (simp add: loop_body_def short_options_def Param_parse_def ParamBase_value_def)
  with lt show ?thesis by simp
qed

section \<open>The audit of required descriptors\<close>

lemma update_ptrs: "snd ` set (AList.update k v m) \<subseteq> insert v (snd ` set m)"
  by (induction m) auto

lemma add_names_ptrs:
  "add_names ptr names m option = Inr (m', option') \<Longrightarrow> snd ` set m' \<subseteq> insert ptr (snd ` set m)"
proof (induction names arbitrary: m option)
  case Nil
  then show ?case by auto
next
  case (Cons name names)
  from Cons.prems obtain opt where
    rec: "add_names ptr names (AList.update name ptr m) opt = Inr (m', option')"
    by (auto split: if_splits)
  from Cons.IH[OF rec] update_ptrs[of name ptr m] show ?case by auto
qed

lemma check_all_Inl_iff:
  "check_all h ptrs = Inl e \<longleftrightarrow>
     e = Exception ''Required parameter not found.''
     \<and> (\<exists>ptr \<in> set ptrs. m_required (h ! ptr) \<and> \<not> m_found (h ! ptr))"
  by (induction ptrs) (auto simp: ParamBase_check_def split: sum.splits if_splits)

lemma check_all_Inr_iff:
  "check_all h ptrs = Inr u \<longleftrightarrow> \<not> (\<exists>ptr \<in> set ptrs. m_required (h ! ptr) \<and> \<not> m_found (h ! ptr))"
  by (induction ptrs) (auto simp: ParamBase_check_def split: sum.splits if_splits)

text \<open>
  What the audit decides after a complete scan: the exception is thrown exactly when a
  descriptor of \<^verbatim>\<open>map_\<close> or \<^verbatim>\<open>positional_\<close> is required and its \<^verbatim>\<open>found_\<close> is false.
\<close>

lemma audit_after_scan:
  assumes "parse_loop conv i P argv n
             \<lparr>heap = h, start = 0, next_positional = 0, positional_onward = False\<rparr> = Returned s"
  shows "Params_parse conv i n P argv h =
     (if \<exists>ptr \<in> set (map snd (m_map P) @ m_positional P).
           m_required (heap s ! ptr) \<and> \<not> m_found (heap s ! ptr)
      then Thrown (Exception ''Required parameter not found.'') (heap s)
      else Returned (heap s))"
proof (cases "check_all (heap s) (map snd (m_map P) @ m_positional P)")
  case (Inl e)
  with assms check_all_Inl_iff[of "heap s" "map snd (m_map P) @ m_positional P" e]
  show ?thesis by (simp add: Params_parse_def)
next
  case (Inr u)
  with assms check_all_Inr_iff[of "heap s" "map snd (m_map P) @ m_positional P" u]
  show ?thesis by (simp add: Params_parse_def)
qed

text \<open>
  C4. The claim says that parse raises the missing-required error exactly when a
  required descriptor was never matched, its found flag being false from registration
  on. The constructor (lines 50-60) never assigns \<^verbatim>\<open>found_\<close>, and \<^verbatim>\<open>check\<close> reads it.
  When the indeterminate value is true, a required descriptor that no token matched
  (the token array is empty) passes the audit: the call returns normally, the target
  unwritten.
\<close>

theorem required_unmatched_not_reported:
  assumes "Params_add [] (Params_new strict) target T names True option_indet True = Inr (h, P)"
  shows "Params_parse conv i n P [] h = Returned h
     \<and> length h = 1 \<and> m_required (h ! 0) \<and> m_target (h ! 0) = target"
proof -
  from assms obtain m opt where
    names: "add_names 0 names [] False = Inr (m, opt)"
    and h: "h = [Param_new target T names True option_indet True]"
    and P: "m_map P = m" "m_positional P = (if \<not> opt then [0] else [])"
    by (auto simp: Params_add_def Params_new_def split: sum.splits)
  from add_names_ptrs[OF names] have m: "snd ` set m \<subseteq> {0}" by simp
  have found: "m_found (h ! 0)" using h by (simp add: Param_new_def)
  have "\<not> (\<exists>ptr \<in> set (map snd (m_map P) @ m_positional P).
            m_required (h ! ptr) \<and> \<not> m_found (h ! ptr))"
    using m P found by (auto split: if_splits)
  moreover have "parse_loop conv i P [] n
      \<lparr>heap = h, start = 0, next_positional = 0, positional_onward = False\<rparr>
    = Returned \<lparr>heap = h, start = 0, next_positional = 0, positional_onward = False\<rparr>"
    by (cases n) simp_all
  ultimately have "Params_parse conv i n P [] h = Returned h"
    using audit_after_scan[of conv i P "[]" n h] by simp
  then show ?thesis using h by (simp add: Param_new_def)
qed

text \<open>
  The required positional \<^verbatim>\<open>destination\<close> of \<^verbatim>\<open>values.cpp\<close>, and no token.
\<close>

theorem required_unmatched_not_reported_witness:
  "Params_add [] (Params_new True) (VStr '''') TString [''destination''] True False True
     = Inr (dest_heap, dest_params) \<and>
   Params_parse no_conv inc_zero 0 dest_params [] dest_heap = Returned dest_heap \<and>
   m_required (dest_heap ! 0) \<and> m_target (dest_heap ! 0) = VStr ''''"
proof -
  have h: "Params_add [] (Params_new True) (VStr '''') TString [''destination''] True False True
     = Inr (dest_heap, dest_params)"
    by (simp add: Params_add_def Param_new_def Params_new_def is_option_def
        dest_heap_def dest_params_def)
  from required_unmatched_not_reported [OF h, of no_conv inc_zero 0] h
  show ?thesis by simp
qed

end
